theory Spec2Isabelle
  imports Main "HOL-Library.Multiset" "HOL-Library.AList" "HOL-Library.Product_Lexorder"
begin

section \<open>Python strings\<close>

text \<open>
  A Python \<open>str\<close> is modelled as a \<open>string\<close> whose characters are the code points below
  256 (Latin-1); strings with other code points are outside the model.  On these code
  points \<open>str.lower()\<close> maps \<open>A\<close> to \<open>Z\<close> and the capitals \<open>U+00C0\<close> to \<open>U+00DE\<close>, the
  multiplication sign \<open>U+00D7\<close> apart, to the letter 32 places on, and leaves every other
  character as it is.
\<close>

definition lower_char :: "char \<Rightarrow> char" where
  "lower_char c =
     (let n = (of_char c :: nat) in
      if (65 \<le> n \<and> n \<le> 90) \<or> (192 \<le> n \<and> n \<le> 222 \<and> n \<noteq> 215)
      then char_of (n + 32) else c)"

text \<open>\<open>str.lower()\<close>\<close>

definition lower :: "string \<Rightarrow> string" where
  "lower s = map lower_char s"

text \<open>
  \<open>str.isspace()\<close> on one character: tab, line feed, vertical tab, form feed, carriage
  return, the four separators \<open>0x1C\<close> to \<open>0x1F\<close>, the space, the next-line control
  \<open>U+0085\<close> and the no-break space \<open>U+00A0\<close>.
\<close>

definition isspace :: "char \<Rightarrow> bool" where
  "isspace c =
     (let n = (of_char c :: nat) in
      (9 \<le> n \<and> n \<le> 13) \<or> (28 \<le> n \<and> n \<le> 32) \<or> n = 133 \<or> n = 160)"

text \<open>\<open>str.strip()\<close>\<close>

definition strip :: "string \<Rightarrow> string" where
  "strip s = rev (dropWhile isspace (rev (dropWhile isspace s)))"

text \<open>\<open>str.rstrip('/')\<close>\<close>

definition rstrip_slash :: "string \<Rightarrow> string" where
  "rstrip_slash s = rev (dropWhile (\<lambda>c. c = CHR ''/'') (rev s))"

text \<open>
  \<open>str.split(sep)\<close> for a separator of one character.  The result is never empty:
  \<open>''''.split(',')\<close> is \<open>['''']\<close>.
\<close>

fun split :: "char \<Rightarrow> string \<Rightarrow> string list" where
  "split sep [] = [[]]"
| "split sep (c # cs) =
     (if c = sep then [] # split sep cs
      else (case split sep cs of [] \<Rightarrow> [[c]] | w # ws \<Rightarrow> (c # w) # ws))"

text \<open>\<open>sep.join(xs)\<close>\<close>

fun join :: "string \<Rightarrow> string list \<Rightarrow> string" where
  "join sep [] = []"
| "join sep [x] = x"
| "join sep (x # y # ys) = x @ sep @ join sep (y # ys)"

text \<open>\<open>str.endswith(suffix)\<close>\<close>

definition endswith :: "string \<Rightarrow> string \<Rightarrow> bool" where
  "endswith s suf = (length suf \<le> length s \<and> drop (length s - length suf) s = suf)"

text \<open>
  The order of Python strings, \<open>a > b\<close>: lexicographic on the code points, a proper
  prefix being smaller.
\<close>

fun str_gt :: "string \<Rightarrow> string \<Rightarrow> bool" where
  "str_gt [] ys = False"
| "str_gt (x # xs) [] = True"
| "str_gt (x # xs) (y # ys) =
     ((of_char x :: nat) > of_char y \<or> (x = y \<and> str_gt xs ys))"

section \<open>Status of a submission\<close>

text \<open>
  \<open>determine_status(pr_files, target_files)\<close>: both lists become sets, both sets are
  lowercased, and the status is \<open>'Not Done'\<close> as soon as the target set is not a subset
  of the changed-file set.
\<close>

definition determine_status :: "string list \<Rightarrow> string list \<Rightarrow> string" where
  "determine_status pr_files target_files =
     (let pr_files_set = set pr_files;
          target_files_set = set target_files;
          target_files_set = lower ` target_files_set;
          pr_files_set = lower ` pr_files_set
      in if \<not> target_files_set \<subseteq> pr_files_set then ''Not Done'' else ''Done'')"

section \<open>Dates and times\<close>

text \<open>
  A \<open>datetime\<close> is its wall-clock fields (year, month, day, hour, minute, second,
  microsecond); Python compares two datetimes of the same kind field by field in this
  order, which is the lexicographic order of the tuple.  Every datetime the pipeline
  formats has been moved to the zone Asia/Kolkata by \<open>astimezone(INDIA_TZ)\<close>, and the
  fields are those of that zone.
\<close>

type_synonym datetime = "nat \<times> nat \<times> nat \<times> nat \<times> nat \<times> nat \<times> nat"

definition digit_char :: "nat \<Rightarrow> char" where
  "digit_char n = char_of (48 + n mod 10)"

definition dec2 :: "nat \<Rightarrow> string" where
  "dec2 n = [digit_char (n div 10), digit_char n]"

definition dec4 :: "nat \<Rightarrow> string" where
  "dec4 n = [digit_char (n div 1000), digit_char (n div 100), digit_char (n div 10), digit_char n]"

text \<open>\<open>dt.strftime('%H:%M:%S')\<close>\<close>

fun strftime_HMS :: "datetime \<Rightarrow> string" where
  "strftime_HMS (y, mo, d, h, mi, s, us) = dec2 h @ '':'' @ dec2 mi @ '':'' @ dec2 s"

text \<open>\<open>dt.strftime('%Y-%m-%d')\<close>, for the years from 1000 on (four digits).\<close>

fun strftime_Ymd :: "datetime \<Rightarrow> string" where
  "strftime_Ymd (y, mo, d, h, mi, s, us) = dec4 y @ ''-'' @ dec2 mo @ ''-'' @ dec2 d"

datatype pyerror = KeyError | ParserError | ValueError

text \<open>
  \<open>dateutil.parser.parse\<close> is a library outside the repository; the functions that call
  it take it as the parameter \<open>parse\<close>, which fails with \<open>ParserError\<close> or returns a
  datetime.  \<open>parse_Ymd\<close> is its restriction to the format \<open>%Y-%m-%d\<close>, the only one
  the pipeline itself writes: year, month and day as read, at midnight; a day the month
  does not have is an error.
\<close>

definition leap_year :: "nat \<Rightarrow> bool" where
  "leap_year y = (y mod 4 = 0 \<and> (y mod 100 \<noteq> 0 \<or> y mod 400 = 0))"

definition days_in_month :: "nat \<Rightarrow> nat \<Rightarrow> nat" where
  "days_in_month y m =
     (if m = 2 then (if leap_year y then 29 else 28)
      else if m = 4 \<or> m = 6 \<or> m = 9 \<or> m = 11 then 30 else 31)"

definition digit_val :: "char \<Rightarrow> nat option" where
  "digit_val c =
     (let n = (of_char c :: nat) in if 48 \<le> n \<and> n \<le> 57 then Some (n - 48) else None)"

fun digits_val :: "string \<Rightarrow> nat option" where
  "digits_val [] = Some 0"
| "digits_val (c # cs) =
     (case digit_val c of None \<Rightarrow> None
      | Some v \<Rightarrow> (case digits_val cs of None \<Rightarrow> None
                   | Some w \<Rightarrow> Some (v * 10 ^ length cs + w)))"

definition parse_Ymd :: "string \<Rightarrow> pyerror + datetime" where
  "parse_Ymd s =
     (case split CHR ''-'' s of
        [ys, ms, ds] \<Rightarrow>
          (if length ys = 4 \<and> length ms = 2 \<and> length ds = 2 then
             (case (digits_val ys, digits_val ms, digits_val ds) of
                (Some y, Some m, Some d) \<Rightarrow>
                  (if 1 \<le> y \<and> 1 \<le> m \<and> m \<le> 12 \<and> 1 \<le> d \<and> d \<le> days_in_month y m
                   then Inr (y, m, d, 0, 0, 0, 0) else Inl ParserError)
              | _ \<Rightarrow> Inl ParserError)
           else Inl ParserError)
      | _ \<Rightarrow> Inl ParserError)"

section \<open>The constraint enforcer\<close>

text \<open>
  \<open>enforce_constraints(time_str, date_str, launched_str)\<close>.  The launch date is parsed
  first, unless it is \<open>'N/A'\<close>; the time is compared with \<open>"21:00:00"\<close> as a string; the
  candidate date is parsed only when it is not \<open>'N/A'\<close> and a launch date is known (a
  datetime is always true in a condition).  A parser failure leaves the function as an
  exception.
\<close>

definition enforce_constraints ::
  "(string \<Rightarrow> pyerror + datetime) \<Rightarrow> string \<Rightarrow> string \<Rightarrow> string \<Rightarrow> pyerror + (string \<times> string)" where
  "enforce_constraints parse time_str date_str launched_str =
     (let max_time = ''21:00:00'' in
      case (if launched_str \<noteq> ''N/A'' then map_sum id Some (parse launched_str) else Inr None) of
        Inl e \<Rightarrow> Inl e
      | Inr max_date \<Rightarrow>
          (let time_str =
                 (if time_str \<noteq> ''N/A''
                  then (if str_gt time_str max_time then max_time else time_str)
                  else time_str)
           in if date_str \<noteq> ''N/A'' \<and> max_date \<noteq> None then
                (case parse date_str of
                   Inl e \<Rightarrow> Inl e
                 | Inr date_obj \<Rightarrow>
                     Inr (time_str, if date_obj > the max_date then launched_str else date_str))
              else Inr (time_str, date_str)))"

section \<open>The roster\<close>

text \<open>
  \<open>load_names_from_file\<close>.  The file is the list of its lines as the iteration over the
  file object gives them, or \<open>None\<close> when it cannot be opened (the function then returns
  the empty dictionary).  The dictionary is an association list in insertion order; an
  assignment to a key already there replaces the value in place, as \<open>AList.update\<close> does.
  A file that fails in the middle of the reading is not modelled.
\<close>

fun load_names_loop :: "string list \<Rightarrow> (string \<times> string) list \<Rightarrow> (string \<times> string) list" where
  "load_names_loop [] names_dict = names_dict"
| "load_names_loop (line # rest) names_dict =
     (case split CHR '','' (strip line) of
        [github_username, real_name] \<Rightarrow>
          load_names_loop rest
            (AList.update (lower (strip github_username)) (strip real_name) names_dict)
      | _ \<Rightarrow> load_names_loop rest names_dict)"

definition load_names_from_file :: "string list option \<Rightarrow> (string \<times> string) list" where
  "load_names_from_file file =
     (case file of None \<Rightarrow> [] | Some lines \<Rightarrow> load_names_loop lines [])"

section \<open>The reconciliation run\<close>

text \<open>
  \<open>sanitize_repo_name\<close>: the last component of the URL without its trailing slashes,
  each character of the class \<open>[<>:"/\\|?*\x00-\x1F]\<close> replaced by an underscore.
  (\<open>split\<close> never returns the empty list, so \<open>last\<close> is the Python index \<open>[-1]\<close>.)
\<close>

definition sanitize_repo_name :: "string \<Rightarrow> string" where
  "sanitize_repo_name repo_url =
     (let repo_name = last (split CHR ''/'' (rstrip_slash repo_url))
      in map (\<lambda>c. if c \<in> set [CHR ''<'', CHR ''>'', CHR '':'', CHR 0x22, CHR ''/'', CHR 0x5C,
                                 CHR ''|'', CHR ''?'', CHR ''*''] \<or> (of_char c :: nat) \<le> 31
                   then CHR ''_'' else c) repo_name)"

text \<open>
  An entry of the assignment feed is a dictionary with string values;
  \<open>entry.get(key, '')\<close> reads it.
\<close>

type_synonym entry = "(string \<times> string) list"

definition entry_get :: "entry \<Rightarrow> string \<Rightarrow> string" where
  "entry_get entry key = (case map_of entry key of None \<Rightarrow> [] | Some v \<Rightarrow> v)"

text \<open>
  A pull request as \<open>get_pr_details\<close> returns it.  \<open>get_pr_list\<close> returns a list of
  them in which a pull request whose details could not be read is the empty dictionary,
  here \<open>None\<close>; reading \<open>pr['author']\<close> from it raises \<open>KeyError\<close>.
\<close>

record pr =
  pr_id :: nat
  author :: string
  files :: "string list"
  createdAt :: datetime

record row =
  Repo :: string
  Name :: string
  Assignment :: string
  Date :: "string option"
  Files :: string
  Target_Files :: string
  Status :: string
  Score :: int
  Time :: string
  Launched :: string
  Type :: string

text \<open>
  What the run reads from outside: the file names \<open>os.walk\<close> finds under a directory,
  the result of \<open>get_pr_list\<close> for a repository, the result of
  \<open>get_latest_commit_time\<close> for a repository and a pull request,
  \<open>parser.parse(s).astimezone(INDIA_TZ)\<close> and \<open>parser.parse(s)\<close>.  The two functions of
  the source catch \<open>CalledProcessError\<close> only: \<open>get_latest_commit_time\<close> then returns
  \<open>None\<close>, here \<open>Inr None\<close>, and \<open>get_pr_list\<close> the empty list; any other exception
  (a response that is not JSON, a pull request without commits, for which \<open>max\<close> raises
  \<open>ValueError\<close>, a date the parser rejects) leaves them, here \<open>Inl\<close>, and stops the run.
  Each is a function of its arguments: a call repeated within a run gives the same answer.
  \<open>clone_repo\<close> returns nothing and catches its own failure; what it leaves on the disk is
  what \<open>walk\<close> finds.
\<close>

record env =
  walk :: "string \<Rightarrow> string list"
  get_pr_list :: "string \<Rightarrow> pyerror + pr option list"
  get_latest_commit_time :: "string \<Rightarrow> nat \<Rightarrow> pyerror + datetime option"
  parse_astimezone :: "string \<Rightarrow> pyerror + datetime"
  parse :: "string \<Rightarrow> pyerror + datetime"

text \<open>
  A Python set of file names is a list without duplicates; the order in which Python
  iterates over a set is not specified, and the model takes the order of insertion.
\<close>

definition set_update :: "string list \<Rightarrow> string list \<Rightarrow> string list" where
  "set_update s xs = fold (\<lambda>x acc. if x \<in> set acc then acc else acc @ [x]) xs s"

text \<open>The target files of an entry (the branch on the Target File column).\<close>

definition target_files_of :: "env \<Rightarrow> string \<Rightarrow> string list \<Rightarrow> string list" where
  "target_files_of e repo_dir target_files =
     (if target_files = [] \<or> lower (strip (hd target_files)) \<in> {''n/a'', ''na''}
      then [file \<leftarrow> walk e repo_dir. endswith file ''.java'' \<or> endswith file ''.js'']
      else [strip file. file \<leftarrow> target_files, strip file \<noteq> []])"

text \<open>
  The loop that accumulates the files of the pull requests by author.  Both assignments
  to \<open>author_pr_files[pr_author]\<close> are \<open>AList.update\<close>: a new key goes to the end, a key
  already there keeps its place.
\<close>

fun accumulate ::
  "string set \<Rightarrow> pr option list \<Rightarrow> (string \<times> string list) list
     \<Rightarrow> pyerror + (string \<times> string list) list" where
  "accumulate authorized_usernames [] author_pr_files = Inr author_pr_files"
| "accumulate authorized_usernames (None # prs) author_pr_files = Inl KeyError"
| "accumulate authorized_usernames (Some p # prs) author_pr_files =
     (let pr_author = lower (author p) in
      if pr_author \<in> authorized_usernames then
        (case map_of author_pr_files pr_author of
           None \<Rightarrow>
             accumulate authorized_usernames prs
               (AList.update pr_author (set_update [] (files p)) author_pr_files)
         | Some fs \<Rightarrow>
             accumulate authorized_usernames prs
               (AList.update pr_author (set_update fs (files p)) author_pr_files))
      else accumulate authorized_usernames prs author_pr_files)"

text \<open>The loop over the pull requests of one author that keeps the latest commit time.\<close>

fun latest_loop ::
  "env \<Rightarrow> string \<Rightarrow> string \<Rightarrow> pr option list \<Rightarrow> datetime option \<Rightarrow> pyerror + datetime option" where
  "latest_loop e repo_url pr_author [] latest_commit_time = Inr latest_commit_time"
| "latest_loop e repo_url pr_author (None # prs) latest_commit_time = Inl KeyError"
| "latest_loop e repo_url pr_author (Some p # prs) latest_commit_time =
     (if lower (author p) = pr_author then
        (case get_latest_commit_time e repo_url (pr_id p) of
           Inl err \<Rightarrow> Inl err
         | Inr None \<Rightarrow> latest_loop e repo_url pr_author prs latest_commit_time
         | Inr (Some commit_time) \<Rightarrow>
             (if latest_commit_time = None \<or> commit_time > the latest_commit_time
              then latest_loop e repo_url pr_author prs (Some commit_time)
              else latest_loop e repo_url pr_author prs latest_commit_time))
      else latest_loop e repo_url pr_author prs latest_commit_time)"

text \<open>
  The time and the date of an author before the constraints: those of the latest commit
  when there is one, and otherwise the values the variables \<open>time_str\<close> and \<open>date_str\<close>
  hold at that moment.
\<close>

definition author_times ::
  "env \<Rightarrow> string \<Rightarrow> pr option list \<Rightarrow> string \<times> string \<Rightarrow> string \<Rightarrow> pyerror + (string \<times> string)" where
  "author_times e repo_url pr_list st pr_author =
     (case latest_loop e repo_url pr_author pr_list None of
        Inl err \<Rightarrow> Inl err
      | Inr None \<Rightarrow> Inr st
      | Inr (Some latest_commit_time) \<Rightarrow>
          Inr (strftime_HMS latest_commit_time, strftime_Ymd latest_commit_time))"

text \<open>The dictionary appended for an author with pull requests.\<close>

definition attended_row ::
  "string \<Rightarrow> string \<Rightarrow> string \<Rightarrow> string \<Rightarrow> string \<Rightarrow> string list \<Rightarrow> string list
     \<Rightarrow> string \<Rightarrow> int \<Rightarrow> string \<Rightarrow> string \<Rightarrow> row" where
  "attended_row repo_url real_name assignment entry_type launched_str target_files pr_files
       status score time_str date_str =
     \<lparr>Repo = sanitize_repo_name repo_url, Name = real_name, Assignment = assignment,
      Date = Some date_str,
      Files = (if pr_files \<noteq> [] then join '', '' pr_files else ''N/A''),
      Target_Files = join '', '' target_files,
      Status = status, Score = score, Time = time_str, Launched = launched_str,
      Type = entry_type\<rparr>"

text \<open>The dictionary appended for a roster member without pull requests.\<close>

definition not_done_row ::
  "string \<Rightarrow> string \<Rightarrow> string \<Rightarrow> string \<Rightarrow> string \<Rightarrow> string list \<Rightarrow> row" where
  "not_done_row repo_url real_name assignment entry_type launched_str target_files =
     \<lparr>Repo = sanitize_repo_name repo_url, Name = real_name, Assignment = assignment,
      Date = None, Files = ''N/A'', Target_Files = join '', '' target_files,
      Status = ''Not Done'', Score = 0, Time = ''N/A'', Launched = launched_str,
      Type = entry_type\<rparr>"

text \<open>
  One turn of the loop over \<open>author_pr_files.items()\<close>.  The state is the pair of the
  variables \<open>time_str\<close> and \<open>date_str\<close>, which are assigned before the loop and again in
  each turn.
\<close>

definition author_step ::
  "env \<Rightarrow> (string \<times> string) list \<Rightarrow> string \<Rightarrow> string \<Rightarrow> string \<Rightarrow> string \<Rightarrow> string list
     \<Rightarrow> pr option list \<Rightarrow> string \<times> string \<Rightarrow> string \<times> string list
     \<Rightarrow> pyerror + (row \<times> (string \<times> string))" where
  "author_step e names_dict repo_url assignment entry_type launched_str target_files pr_list
       st item =
     (let pr_author = fst item; pr_files = snd item in
      case map_of names_dict pr_author of
        None \<Rightarrow> Inl KeyError
      | Some real_name \<Rightarrow>
          (case author_times e repo_url pr_list st pr_author of
             Inl err \<Rightarrow> Inl err
           | Inr (time_str, date_str) \<Rightarrow>
               (let status = determine_status pr_files target_files;
                    score = (if status = ''Done'' then 1 else 0)
                in case enforce_constraints (parse e) time_str date_str launched_str of
                     Inl err \<Rightarrow> Inl err
                   | Inr (time_str, date_str) \<Rightarrow>
                       Inr (attended_row repo_url real_name assignment entry_type launched_str
                              target_files pr_files status score time_str date_str,
                            (time_str, date_str)))))"

fun author_loop ::
  "env \<Rightarrow> (string \<times> string) list \<Rightarrow> string \<Rightarrow> string \<Rightarrow> string \<Rightarrow> string \<Rightarrow> string list
     \<Rightarrow> pr option list \<Rightarrow> string \<times> string \<Rightarrow> (string \<times> string list) list
     \<Rightarrow> pyerror + row list" where
  "author_loop e names_dict repo_url assignment entry_type launched_str target_files pr_list
       st [] = Inr []"
| "author_loop e names_dict repo_url assignment entry_type launched_str target_files pr_list
       st (item # items) =
     (case author_step e names_dict repo_url assignment entry_type launched_str target_files
             pr_list st item of
        Inl err \<Rightarrow> Inl err
      | Inr (r, st') \<Rightarrow>
          (case author_loop e names_dict repo_url assignment entry_type launched_str
                  target_files pr_list st' items of
             Inl err \<Rightarrow> Inl err
           | Inr rs \<Rightarrow> Inr (r # rs)))"

text \<open>The loop over \<open>names_dict.items()\<close> for the roster members who did not attend.\<close>

definition non_attended ::
  "(string \<times> string) list \<Rightarrow> string set \<Rightarrow> string \<Rightarrow> string \<Rightarrow> string \<Rightarrow> string
     \<Rightarrow> string list \<Rightarrow> row list" where
  "non_attended names_dict attended_authors repo_url assignment entry_type launched_str
       target_files =
     [not_done_row repo_url (snd item) assignment entry_type launched_str target_files.
        item \<leftarrow> names_dict, fst item \<notin> attended_authors]"

text \<open>The body of the loop over the entries of the feed: the rows it appends.\<close>

definition process_entry :: "env \<Rightarrow> (string \<times> string) list \<Rightarrow> entry \<Rightarrow> pyerror + row list" where
  "process_entry e names_dict entry =
     (let authorized_usernames = set (map fst names_dict);
          repo_url = entry_get entry ''Repo URL'';
          assignment = entry_get entry ''Assignment'';
          entry_type = entry_get entry ''Type'';
          target_files = split CHR '','' (entry_get entry ''Target File'');
          repo_date_str = entry_get entry ''Date''
      in if repo_url = [] \<or> assignment = [] then Inr []
         else
          (let repo_dir = sanitize_repo_name repo_url;
               target_files = target_files_of e repo_dir target_files
           in case get_pr_list e repo_url of
                Inl err \<Rightarrow> Inl err
              | Inr pr_list \<Rightarrow>
                  (case (if repo_date_str \<noteq> []
                         then map_sum id Some (parse_astimezone e repo_date_str)
                         else Inr None) of
                     Inl err \<Rightarrow> Inl err
                   | Inr repo_date \<Rightarrow>
                       (let launched_str =
                              (case repo_date of Some d \<Rightarrow> strftime_Ymd d | None \<Rightarrow> ''N/A'')
                        in case accumulate authorized_usernames pr_list [] of
                             Inl err \<Rightarrow> Inl err
                           | Inr author_pr_files \<Rightarrow>
                               (case author_loop e names_dict repo_url assignment entry_type
                                       launched_str target_files pr_list (''N/A'', ''N/A'')
                                       author_pr_files of
                                  Inl err \<Rightarrow> Inl err
                                | Inr rows \<Rightarrow>
                                    Inr (rows @
                                         non_attended names_dict
                                           (set (map fst author_pr_files))
                                           repo_url assignment entry_type launched_str
                                           target_files))))))"

fun entries_loop :: "env \<Rightarrow> (string \<times> string) list \<Rightarrow> entry list \<Rightarrow> pyerror + row list" where
  "entries_loop e names_dict [] = Inr []"
| "entries_loop e names_dict (entry # entries) =
     (case process_entry e names_dict entry of
        Inl err \<Rightarrow> Inl err
      | Inr rows \<Rightarrow>
          (case entries_loop e names_dict entries of
             Inl err \<Rightarrow> Inl err
           | Inr rest \<Rightarrow> Inr (rows @ rest)))"

text \<open>
  \<open>prepare_and_send_data\<close>: the rows posted to the sheet; \<open>None\<close> when the feed is empty
  and the function returns before anything is sent.
\<close>

definition prepare_and_send_data ::
  "env \<Rightarrow> string list option \<Rightarrow> entry list \<Rightarrow> pyerror + row list option" where
  "prepare_and_send_data e names_file data_from_sheet =
     (if data_from_sheet = [] then Inr None
      else map_sum id Some (entries_loop e (load_names_from_file names_file) data_from_sheet))"

section \<open>Notions used in the statements\<close>





text \<open>
  The roster as the specification describes it: the comma-separated fields of a line, and
  the pairs (handle, display name) of the lines that have exactly two fields, in the order
  of the file.
\<close>

definition fields_of :: "string \<Rightarrow> string list" where
  "fields_of line = split CHR '','' (strip line)"

definition roster_pairs :: "string list \<Rightarrow> (string \<times> string) list" where
  "roster_pairs lines =
     [(lower (strip (fields_of line ! 0)), strip (fields_of line ! 1)).
        line \<leftarrow> lines, length (fields_of line) = 2]"

text \<open>
  The date strings are readable when the enforcer parses without an exception: the launch
  date is \<open>'N/A'\<close>, or the parser reads it and reads the candidate date unless that one is
  \<open>'N/A'\<close>.
\<close>

definition dates_readable :: "(string \<Rightarrow> pyerror + datetime) \<Rightarrow> string \<Rightarrow> string \<Rightarrow> bool" where
  "dates_readable parser date_str launched_str =
     (launched_str = ''N/A'' \<or>
      (isl (parser launched_str) = False \<and>
       (date_str = ''N/A'' \<or> isl (parser date_str) = False)))"


definition processed :: "entry \<Rightarrow> bool" where
  "processed entry = (entry_get entry ''Repo URL'' \<noteq> [] \<and> entry_get entry ''Assignment'' \<noteq> [])"

definition entry_target_files :: "env \<Rightarrow> entry \<Rightarrow> string list" where
  "entry_target_files e entry =
     target_files_of e (sanitize_repo_name (entry_get entry ''Repo URL''))
       (split CHR '','' (entry_get entry ''Target File''))"

definition entry_pr_list :: "env \<Rightarrow> entry \<Rightarrow> pr option list" where
  "entry_pr_list e entry =
     (case get_pr_list e (entry_get entry ''Repo URL'') of Inl err \<Rightarrow> [] | Inr pr_list \<Rightarrow> pr_list)"








subsection \<open>A small run\<close>

text \<open>
  A roster of three, one repository with a pull request of Alice that changes
  \<open>Main.java\<close> and one of Bob that changes \<open>Notes.txt\<close>; the commit-time query succeeds
  for the first pull request and fails for the second.
\<close>

definition demo_pr_list :: "pr option list" where
  "demo_pr_list =
     [Some \<lparr>pr_id = 1, author = ''Alice'', files = [''Main.java''],
             createdAt = (2024, 1, 9, 17, 45, 0, 0)\<rparr>,
      Some \<lparr>pr_id = 2, author = ''bob'', files = [''Notes.txt''],
             createdAt = (2024, 1, 9, 17, 30, 0, 0)\<rparr>]"

definition demo_env :: env where
  "demo_env =
     \<lparr>walk = (\<lambda>repo_dir. [''Main.java'', ''README.md'', ''app.js'']),
      get_pr_list = (\<lambda>repo_url. Inr demo_pr_list),
      get_latest_commit_time =
        (\<lambda>repo_url n. if n = 1 then Inr (Some (2024, 1, 9, 18, 0, 0, 0)) else Inr None),
      parse_astimezone = parse_Ymd,
      parse = parse_Ymd\<rparr>"

definition demo_names_file :: "string list option" where
  "demo_names_file = Some [''alice,Alice\<newline>'', ''bob,Bob\<newline>'', ''carol,Carol\<newline>'']"

definition demo_entry :: "string \<Rightarrow> entry" where
  "demo_entry target =
     [(''Repo URL'', ''https://github.com/org/hw1''), (''Assignment'', ''HW1''),
      (''Type'', ''Code''), (''Target File'', target), (''Date'', ''2024-01-10'')]"


text \<open>The rows of the small run for the target file \<open>Main.java\<close>.\<close>

definition demo_rows :: "row list" where
  "demo_rows =
     [\<lparr>Repo = ''hw1'', Name = ''Alice'', Assignment = ''HW1'', Date = Some ''2024-01-09'',
       Files = ''Main.java'', Target_Files = ''Main.java'', Status = ''Done'', Score = 1,
       Time = ''18:00:00'', Launched = ''2024-01-10'', Type = ''Code''\<rparr>,
      \<lparr>Repo = ''hw1'', Name = ''Bob'', Assignment = ''HW1'', Date = Some ''2024-01-09'',
       Files = ''Notes.txt'', Target_Files = ''Main.java'', Status = ''Not Done'', Score = 0,
       Time = ''18:00:00'', Launched = ''2024-01-10'', Type = ''Code''\<rparr>,
      \<lparr>Repo = ''hw1'', Name = ''Carol'', Assignment = ''HW1'', Date = None,
       Files = ''N/A'', Target_Files = ''Main.java'', Status = ''Not Done'', Score = 0,
       Time = ''N/A'', Launched = ''2024-01-10'', Type = ''Code''\<rparr>]"





section \<open>Properties\<close>

subsection \<open>Lowercasing and the status\<close>




lemma determine_status_sets:
  "determine_status pr tf =
     (if lower ` set tf \<subseteq> lower ` set pr then ''Done'' else ''Not Done'')"
  by (simp add: determine_status_def Let_def)





subsection \<open>The constraint enforcer\<close>

lemma of_char_digit: "(of_char (digit_char n) :: nat) = 48 + n mod 10"
proof -
  have "48 + n mod 10 < 256"
    by (simp add: less_imp_le_nat trans_less_add2)
  then show ?thesis
    by (simp add: digit_char_def)
qed

lemma digit_char_eq: "digit_char a = digit_char b \<longleftrightarrow> a mod 10 = b mod 10"
proof -
  have "digit_char a = digit_char b
          \<longleftrightarrow> (of_char (digit_char a) :: nat) = of_char (digit_char b)"
    by simp
  then show ?thesis
    by (simp only: of_char_digit) simp
qed

lemma digit_consts:
  "CHR ''2'' = digit_char 2" "CHR ''1'' = digit_char 1" "CHR ''0'' = digit_char 0"
  by code_simp+

lemma hour_digits:
  assumes "h < 24"
  shows "(2 < h div 10 mod 10 \<or>
          h div 10 mod 10 = 2 \<and> (Suc 0 < h mod 10 \<or> h mod 10 = Suc 0 \<and> R))
     \<longleftrightarrow> (21 < h \<or> h = 21 \<and> R)"
proof -
  from assms have "h \<in> set [0..<24]"
    by simp
  then show ?thesis
    by (simp add: upt_rec) (elim disjE; simp)
qed

lemma zero_digits:
  assumes "(n::nat) < 100"
  shows "(0 < n div 10 mod 10 \<or>
          n div 10 mod 10 = 0 \<and> (0 < n mod 10 \<or> n mod 10 = 0 \<and> R))
     \<longleftrightarrow> (0 < n \<or> n = 0 \<and> R)"
proof -
  from assms have "n div 10 mod 10 = n div 10"
    by simp
  moreover have "n = 0 \<longleftrightarrow> n div 10 = 0 \<and> n mod 10 = 0"
    by auto
  ultimately show ?thesis
    by auto
qed

lemma seconds_of_day:
  "mi < 60 \<Longrightarrow> s < 60 \<Longrightarrow>
   (21 < h \<or> h = 21 \<and> (0 < mi \<or> mi = 0 \<and> 0 < s))
     \<longleftrightarrow> 21 * 3600 < h * 3600 + mi * 60 + (s::nat)"
  by arith

text \<open>
  On the strings \<open>strftime('%H:%M:%S')\<close> writes, the string comparison with the cutoff is
  the comparison of the times of day.
\<close>

lemma str_gt_HMS:
  assumes "h < 24" "mi < 60" "s < 60"
  shows "str_gt (strftime_HMS (y, mo, d, h, mi, s, us)) ''21:00:00''
           \<longleftrightarrow> 21 * 3600 < h * 3600 + mi * 60 + s"
proof -
  have m: "mi < 100" and s: "s < 100"
    using assms by simp_all
  have "str_gt (strftime_HMS (y, mo, d, h, mi, s, us))
          [digit_char 2, digit_char 1, CHR '':'', digit_char 0, digit_char 0, CHR '':'',
           digit_char 0, digit_char 0]
     \<longleftrightarrow> (2 < h div 10 mod 10 \<or> h div 10 mod 10 = 2 \<and> (Suc 0 < h mod 10 \<or> h mod 10 = Suc 0 \<and>
            (0 < mi div 10 mod 10 \<or> mi div 10 mod 10 = 0 \<and> (0 < mi mod 10 \<or> mi mod 10 = 0 \<and>
            (0 < s div 10 mod 10 \<or> s div 10 mod 10 = 0 \<and>
               (0 < s mod 10 \<or> s mod 10 = 0 \<and> False))))))"
    by (simp add: dec2_def of_char_digit digit_char_eq)
  also have "\<dots> \<longleftrightarrow> (21 < h \<or> h = 21 \<and> (0 < mi \<or> mi = 0 \<and> 0 < s))"
    by (simp only: hour_digits [OF assms(1)] zero_digits [OF m] zero_digits [OF s]) simp
  also have "\<dots> \<longleftrightarrow> 21 * 3600 < h * 3600 + mi * 60 + s"
    using assms(2,3) by (rule seconds_of_day)
  finally show ?thesis
    by (simp only: digit_consts)
qed

lemma strftime_HMS_not_NA: "strftime_HMS dt \<noteq> ''N/A''"
  by (cases dt) (simp add: dec2_def)

lemma enforce_NA:
  "enforce_constraints parser t d ''N/A'' =
     Inr (if t \<noteq> ''N/A'' \<and> str_gt t ''21:00:00'' then ''21:00:00'' else t, d)"
  by (simp add: enforce_constraints_def Let_def)

lemma enforce_date_NA:
  "parser l = Inr ld \<Longrightarrow>
   enforce_constraints parser t ''N/A'' l =
     Inr (if t \<noteq> ''N/A'' \<and> str_gt t ''21:00:00'' then ''21:00:00'' else t, ''N/A'')"
  by (simp add: enforce_constraints_def Let_def)

lemma enforce_both:
  "parser l = Inr ld \<Longrightarrow> parser d = Inr dd \<Longrightarrow> l \<noteq> ''N/A'' \<Longrightarrow> d \<noteq> ''N/A'' \<Longrightarrow>
   enforce_constraints parser t d l =
     Inr (if t \<noteq> ''N/A'' \<and> str_gt t ''21:00:00'' then ''21:00:00'' else t,
          if dd > ld then l else d)"
  by (simp add: enforce_constraints_def Let_def)

lemma readable_launch:
  "dates_readable parser d l \<Longrightarrow> l \<noteq> ''N/A'' \<Longrightarrow> \<exists>ld. parser l = Inr ld"
  unfolding dates_readable_def by (cases "parser l") auto

lemma readable_date:
  "dates_readable parser d l \<Longrightarrow> l \<noteq> ''N/A'' \<Longrightarrow> d \<noteq> ''N/A'' \<Longrightarrow>
   \<exists>dd. parser d = Inr dd"
  unfolding dates_readable_def by (cases "parser d") auto

lemma enforce_readable:
  assumes "dates_readable parser d l"
  shows "\<exists>d'. enforce_constraints parser t d l =
           Inr (if t \<noteq> ''N/A'' \<and> str_gt t ''21:00:00'' then ''21:00:00'' else t, d')"
proof (cases "l = ''N/A''")
  case True
  then show ?thesis
    by (simp add: enforce_NA)
next
  case False
  with assms obtain ld where ld: "parser l = Inr ld"
    using readable_launch by blast
  show ?thesis
  proof (cases "d = ''N/A''")
    case True
    with ld show ?thesis
      by (simp add: enforce_date_NA)
  next
    case dna: False
    with assms False obtain dd where "parser d = Inr dd"
      using readable_date by blast
    with ld False dna show ?thesis
      by (simp add: enforce_both)
  qed
qed

text \<open>
  C5.  When the date strings are readable the enforcer returns, and the time it returns
  for a candidate other than \<open>'N/A'\<close> is \<open>"21:00:00"\<close> when the candidate is greater than
  the cutoff and the candidate otherwise; for a candidate written by
  \<open>strftime('%H:%M:%S')\<close> that is when its time of day is past 21:00:00.  So
  \<open>"22:15:00"\<close> becomes \<open>"21:00:00"\<close> and \<open>"18:00:00"\<close> stays.
\<close>

theorem enforce_constraints_cutoff:
  assumes "dates_readable parser date_str launched_str"
  shows "(h < 24 \<and> mi < 60 \<and> s < 60 \<longrightarrow>
            (\<exists>d'. enforce_constraints parser (strftime_HMS (y, mo, d, h, mi, s, us))
                     date_str launched_str =
                   Inr (if 21 * 3600 < h * 3600 + mi * 60 + s then ''21:00:00''
                        else strftime_HMS (y, mo, d, h, mi, s, us), d')))
       \<and> (time_str \<noteq> ''N/A'' \<longrightarrow>
            (\<exists>d'. enforce_constraints parser time_str date_str launched_str =
                   Inr (if str_gt time_str ''21:00:00'' then ''21:00:00'' else time_str, d')))
       \<and> (\<exists>d'. enforce_constraints parser ''22:15:00'' date_str launched_str =
                   Inr (''21:00:00'', d'))
       \<and> (\<exists>d'. enforce_constraints parser ''18:00:00'' date_str launched_str =
                   Inr (''18:00:00'', d'))"
proof (intro conjI impI)
  assume "h < 24 \<and> mi < 60 \<and> s < 60"
  then have "str_gt (strftime_HMS (y, mo, d, h, mi, s, us)) ''21:00:00''
               \<longleftrightarrow> 21 * 3600 < h * 3600 + mi * 60 + s"
    by (simp only: str_gt_HMS)
  then show "\<exists>d'. enforce_constraints parser (strftime_HMS (y, mo, d, h, mi, s, us))
                     date_str launched_str =
                   Inr (if 21 * 3600 < h * 3600 + mi * 60 + s then ''21:00:00''
                        else strftime_HMS (y, mo, d, h, mi, s, us), d')"
    using enforce_readable [OF assms, of "strftime_HMS (y, mo, d, h, mi, s, us)"]
    by (simp only: strftime_HMS_not_NA) simp
next
  assume "time_str \<noteq> ''N/A''"
  then show "\<exists>d'. enforce_constraints parser time_str date_str launched_str =
                   Inr (if str_gt time_str ''21:00:00'' then ''21:00:00'' else time_str, d')"
    using enforce_readable [OF assms, of time_str] by simp
next
  show "\<exists>d'. enforce_constraints parser ''22:15:00'' date_str launched_str =
              Inr (''21:00:00'', d')"
    using enforce_readable [OF assms, of "''22:15:00''"] by simp
next
  show "\<exists>d'. enforce_constraints parser ''18:00:00'' date_str launched_str =
              Inr (''18:00:00'', d')"
    using enforce_readable [OF assms, of "''18:00:00''"] by simp
qed

theorem enforce_constraints_cutoff_witness:
  "dates_readable parse_Ymd ''2024-01-09'' ''2024-01-10''
   \<and> (\<exists>d'. enforce_constraints parse_Ymd (strftime_HMS (2024, 1, 9, 21, 0, 1, 0))
              ''2024-01-09'' ''2024-01-10'' = Inr (''21:00:00'', d'))
   \<and> (\<exists>d'. enforce_constraints parse_Ymd ''09:30:00'' ''2024-01-09'' ''2024-01-10''
             = Inr (''09:30:00'', d'))"
proof -
  have r: "dates_readable parse_Ymd ''2024-01-09'' ''2024-01-10''"
    by code_simp
  have g: "\<not> str_gt ''09:30:00'' ''21:00:00''"
    by simp
  show ?thesis
    using r g
      enforce_constraints_cutoff [OF r, of 21 0 1 2024 1 9 0 "''09:30:00''"]
    by simp
qed

lemma parse_Ymd_examples:
  "parse_Ymd ''2024-01-10'' = Inr (2024, 1, 10, 0, 0, 0, 0)"
  "parse_Ymd ''2024-01-12'' = Inr (2024, 1, 12, 0, 0, 0, 0)"
  "parse_Ymd ''2024-01-09'' = Inr (2024, 1, 9, 0, 0, 0, 0)"
  by code_simp+

lemma date_order_examples:
  "((2024, 1, 12, 0, 0, 0, 0) :: datetime) > (2024, 1, 10, 0, 0, 0, 0)"
  "\<not> ((2024, 1, 9, 0, 0, 0, 0) :: datetime) > (2024, 1, 10, 0, 0, 0, 0)"
  by (simp_all add: less_prod_def)

text \<open>
  C6.  The enforcer returns the launch date in place of the candidate date exactly when
  the launch date is not \<open>'N/A'\<close>, the candidate date is not \<open>'N/A'\<close> and the candidate
  date, as the parser reads it, is strictly after the launch date; with a launch date
  \<open>'N/A'\<close> or a candidate date \<open>'N/A'\<close> the date comes back unchanged.  With the launch date
  \<open>"2024-01-10"\<close> the candidate \<open>"2024-01-12"\<close> becomes \<open>"2024-01-10"\<close> and the candidate
  \<open>"2024-01-09"\<close> stays.
\<close>

theorem enforce_constraints_future_date:
  "(\<exists>t'. enforce_constraints parser t d ''N/A'' = Inr (t', d))
   \<and> (parser l = Inr ld \<longrightarrow>
        (\<exists>t'. enforce_constraints parser t ''N/A'' l = Inr (t', ''N/A'')))
   \<and> (parser l = Inr ld \<and> parser d = Inr dd \<and> l \<noteq> ''N/A'' \<and> d \<noteq> ''N/A'' \<longrightarrow>
        (\<exists>t'. enforce_constraints parser t d l = Inr (t', if dd > ld then l else d)))
   \<and> (\<exists>t'. enforce_constraints parse_Ymd t ''2024-01-12'' ''2024-01-10''
              = Inr (t', ''2024-01-10''))
   \<and> (\<exists>t'. enforce_constraints parse_Ymd t ''2024-01-09'' ''2024-01-10''
              = Inr (t', ''2024-01-09''))"
proof (intro conjI impI)
  show "\<exists>t'. enforce_constraints parser t d ''N/A'' = Inr (t', d)"
    by (simp add: enforce_NA)
next
  assume "parser l = Inr ld"
  then show "\<exists>t'. enforce_constraints parser t ''N/A'' l = Inr (t', ''N/A'')"
    by (simp add: enforce_date_NA)
next
  assume "parser l = Inr ld \<and> parser d = Inr dd \<and> l \<noteq> ''N/A'' \<and> d \<noteq> ''N/A''"
  then show "\<exists>t'. enforce_constraints parser t d l = Inr (t', if dd > ld then l else d)"
    by (simp add: enforce_both)
next
  have "enforce_constraints parse_Ymd t ''2024-01-12'' ''2024-01-10'' =
          Inr (if t \<noteq> ''N/A'' \<and> str_gt t ''21:00:00'' then ''21:00:00'' else t,
               if ((2024, 1, 12, 0, 0, 0, 0) :: datetime) > (2024, 1, 10, 0, 0, 0, 0)
               then ''2024-01-10'' else ''2024-01-12'')"
    using enforce_both [of parse_Ymd "''2024-01-10''" _ "''2024-01-12''" _ t]
    by (simp add: parse_Ymd_examples)
  then show "\<exists>t'. enforce_constraints parse_Ymd t ''2024-01-12'' ''2024-01-10''
                = Inr (t', ''2024-01-10'')"
    by (simp only: date_order_examples if_True) blast
next
  have "enforce_constraints parse_Ymd t ''2024-01-09'' ''2024-01-10'' =
          Inr (if t \<noteq> ''N/A'' \<and> str_gt t ''21:00:00'' then ''21:00:00'' else t,
               if ((2024, 1, 9, 0, 0, 0, 0) :: datetime) > (2024, 1, 10, 0, 0, 0, 0)
               then ''2024-01-10'' else ''2024-01-09'')"
    using enforce_both [of parse_Ymd "''2024-01-10''" _ "''2024-01-09''" _ t]
    by (simp add: parse_Ymd_examples)
  then show "\<exists>t'. enforce_constraints parse_Ymd t ''2024-01-09'' ''2024-01-10''
                = Inr (t', ''2024-01-09'')"
    by (simp only: date_order_examples if_False) blast
qed

theorem enforce_constraints_future_date_witness:
  "parse_Ymd ''2024-02-01'' = Inr (2024, 2, 1, 0, 0, 0, 0)
   \<and> parse_Ymd ''2024-03-15'' = Inr (2024, 3, 15, 0, 0, 0, 0)
   \<and> (\<exists>t'. enforce_constraints parse_Ymd ''10:00:00'' ''2024-03-15'' ''2024-02-01''
              = Inr (t', ''2024-02-01''))
   \<and> (\<exists>t'. enforce_constraints parse_Ymd ''10:00:00'' ''N/A'' ''2024-02-01''
              = Inr (t', ''N/A''))"
proof -
  have l: "parse_Ymd ''2024-02-01'' = Inr (2024, 2, 1, 0, 0, 0, 0)"
    by code_simp
  have d: "parse_Ymd ''2024-03-15'' = Inr (2024, 3, 15, 0, 0, 0, 0)"
    by code_simp
  have o: "((2024, 3, 15, 0, 0, 0, 0) :: datetime) > (2024, 2, 1, 0, 0, 0, 0)"
    by (simp add: less_prod_def)
  show ?thesis
    using l d o
      enforce_constraints_future_date
        [of parse_Ymd "''10:00:00''" "''2024-03-15''" "''2024-02-01''" "(2024, 2, 1, 0, 0, 0, 0)"
            "(2024, 3, 15, 0, 0, 0, 0)"]
    by simp
qed

subsection \<open>The roster\<close>

lemma roster_pairs_Cons:
  "roster_pairs (line # rest) =
     (if length (fields_of line) = 2
      then (lower (strip (fields_of line ! 0)), strip (fields_of line ! 1)) # roster_pairs rest
      else roster_pairs rest)"
  by (simp add: roster_pairs_def)

lemma load_names_loop_map_of:
  "map_of (load_names_loop lines acc) = map_of acc ++ map_of (rev (roster_pairs lines))"
proof (induction lines arbitrary: acc)
  case Nil
  then show ?case
    by (simp add: roster_pairs_def)
next
  case (Cons line rest)
  show ?case
  proof (cases "length (fields_of line) = 2")
    case True
    then obtain a b where ab: "fields_of line = [a, b]"
      by (cases "fields_of line") (auto simp: length_Suc_conv)
    then show ?thesis
      using Cons.IH roster_pairs_Cons [of line rest]
      by (simp add: fields_of_def update_conv' map_add_def fun_eq_iff split: option.splits)
  next
    case False
    then have "load_names_loop (line # rest) acc = load_names_loop rest acc"
      by (auto simp: fields_of_def split: list.splits)
    then show ?thesis
      using Cons.IH roster_pairs_Cons [of line rest] False by simp
  qed
qed

lemma load_names_loop_distinct:
  "distinct (map fst acc) \<Longrightarrow> distinct (map fst (load_names_loop lines acc))"
  by (induction lines arbitrary: acc) (auto simp: distinct_update split: list.splits)

lemma load_names_loop_keys:
  "fst ` set (load_names_loop lines acc) = fst ` set acc \<union> fst ` set (roster_pairs lines)"
proof -
  have "dom (map_of (load_names_loop lines acc)) =
          dom (map_of acc ++ map_of (rev (roster_pairs lines)))"
    by (simp only: load_names_loop_map_of)
  then show ?thesis
    by (simp add: dom_map_of_conv_image_fst Un_commute)
qed

lemma map_of_rev_last:
  "map_of (rev ps) k =
     (case filter (\<lambda>p. fst p = k) ps of [] \<Rightarrow> None | q # qs \<Rightarrow> Some (snd (last (q # qs))))"
proof (induction ps)
  case Nil
  then show ?case by simp
next
  case (Cons p ps)
  have "map_of (rev (p # ps)) k =
          (case map_of (rev ps) k of
             None \<Rightarrow> (if fst p = k then Some (snd p) else None) | Some v \<Rightarrow> Some v)"
    by (auto simp: map_add_def split: option.splits)
  then show ?case
    using Cons.IH by (cases p) (auto split: list.splits)
qed


text \<open>
  C9.  Loading the roster keeps the lines with exactly two comma-separated fields and no
  others; the handle of a kept line is stripped and lowercased, its display name stripped;
  a handle has the display name of the last kept line that carries it, and no handle is in
  the roster twice.  A file that cannot be opened gives the empty roster.
\<close>

theorem load_names_from_file_roster:
  "map_of (load_names_from_file (Some lines)) = map_of (rev (roster_pairs lines))
   \<and> map_of (load_names_from_file (Some lines)) handle =
       (case filter (\<lambda>p. fst p = handle) (roster_pairs lines) of
          [] \<Rightarrow> None | q # qs \<Rightarrow> Some (snd (last (q # qs))))
   \<and> set (map fst (load_names_from_file (Some lines))) = fst ` set (roster_pairs lines)
   \<and> distinct (map fst (load_names_from_file (Some lines)))
   \<and> load_names_from_file None = []"
  by (simp add: load_names_from_file_def load_names_loop_map_of load_names_loop_keys
      load_names_loop_distinct map_of_rev_last)

theorem load_names_from_file_roster_witness:
  "roster_pairs [''alice,Alice A\<newline>'', '' Bob , Bob B \<newline>'', ''no comma\<newline>'', ''a,b,c\<newline>'',
       ''ALICE,Alice Z'']
     = [(''alice'', ''Alice A''), (''bob'', ''Bob B''), (''alice'', ''Alice Z'')]
   \<and> map_of (load_names_from_file
         (Some [''alice,Alice A\<newline>'', '' Bob , Bob B \<newline>'', ''no comma\<newline>'', ''a,b,c\<newline>'',
                ''ALICE,Alice Z''])) ''alice'' = Some ''Alice Z''
   \<and> set (map fst (load_names_from_file
         (Some [''alice,Alice A\<newline>'', '' Bob , Bob B \<newline>'', ''no comma\<newline>'', ''a,b,c\<newline>'',
                ''ALICE,Alice Z'']))) = {''alice'', ''bob''}"
proof -
  have r: "roster_pairs [''alice,Alice A\<newline>'', '' Bob , Bob B \<newline>'', ''no comma\<newline>'', ''a,b,c\<newline>'',
       ''ALICE,Alice Z'']
     = [(''alice'', ''Alice A''), (''bob'', ''Bob B''), (''alice'', ''Alice Z'')]"
    by code_simp
  show ?thesis
    using load_names_from_file_roster
      [of "[''alice,Alice A\<newline>'', '' Bob , Bob B \<newline>'', ''no comma\<newline>'', ''a,b,c\<newline>'',
            ''ALICE,Alice Z'']" "''alice''"]
    by (simp only: r) auto
qed

subsection \<open>The small run, evaluated\<close>

lemma demo_run:
  "prepare_and_send_data demo_env demo_names_file [demo_entry ''Main.java'']
     = Inr (Some demo_rows)"
  by code_simp

lemma demo_roster:
  "load_names_from_file demo_names_file
     = [(''alice'', ''Alice''), (''bob'', ''Bob''), (''carol'', ''Carol'')]"
  by code_simp

subsection \<open>The rows of one author\<close>

lemma author_step_Inr:
  assumes "author_step e names_dict repo_url assignment entry_type launched_str target_files
             pr_list st item = Inr (r, st')"
  shows "\<exists>real_name t d t' d'.
           map_of names_dict (fst item) = Some real_name \<and>
           author_times e repo_url pr_list st (fst item) = Inr (t, d) \<and>
           enforce_constraints (parse e) t d launched_str = Inr (t', d') \<and>
           st' = (t', d') \<and>
           r = attended_row repo_url real_name assignment entry_type launched_str target_files
                 (snd item) (determine_status (snd item) target_files)
                 (if determine_status (snd item) target_files = ''Done'' then 1 else 0) t' d'"
  using assms unfolding author_step_def Let_def
  by (auto split: option.splits sum.splits prod.splits)



lemma author_step_row:
  assumes "author_step e names_dict repo_url assignment entry_type launched_str target_files
             pr_list st item = Inr (r, st')"
  shows "map_of names_dict (fst item) = Some (Name r) \<and> Assignment r = assignment \<and>
         Status r = determine_status (snd item) target_files \<and>
         Score r = (if Status r = ''Done'' then 1 else 0) \<and> Date r \<noteq> None"
proof -
  from author_step_Inr [OF assms] obtain real_name t' d' where
    "map_of names_dict (fst item) = Some real_name" and
    "r = attended_row repo_url real_name assignment entry_type launched_str target_files
           (snd item) (determine_status (snd item) target_files)
           (if determine_status (snd item) target_files = ''Done'' then 1 else 0) t' d'"
    by blast
  then show ?thesis
    by (simp add: attended_row_def)
qed

lemma author_loop_rows:
  "author_loop e names_dict repo_url assignment entry_type launched_str target_files pr_list
     st items = Inr rows \<Longrightarrow>
   list_all2 (\<lambda>item r. map_of names_dict (fst item) = Some (Name r) \<and>
                Assignment r = assignment \<and>
                Status r = determine_status (snd item) target_files \<and>
                Score r = (if Status r = ''Done'' then 1 else 0) \<and> Date r \<noteq> None)
     items rows"
proof (induction items arbitrary: st rows)
  case Nil
  then show ?case by simp
next
  case (Cons item items)
  from Cons.prems obtain r st' rs where
    s: "author_step e names_dict repo_url assignment entry_type launched_str target_files
          pr_list st item = Inr (r, st')" and
    l: "author_loop e names_dict repo_url assignment entry_type launched_str target_files
          pr_list st' items = Inr rs" and
    rows: "rows = r # rs"
    by (auto split: sum.splits prod.splits)
  from author_step_row [OF s] Cons.IH [OF l] rows show ?case
    by simp
qed

lemma non_attended_rows:
  "r \<in> set (non_attended names_dict attended repo_url assignment entry_type launched_str
               target_files) \<Longrightarrow>
   Status r = ''Not Done'' \<and> Score r = 0 \<and> Date r = None \<and> Assignment r = assignment"
  by (auto simp: non_attended_def not_done_row_def)

lemma process_entry_scores:
  assumes "process_entry e names_dict entry = Inr rows" and "r \<in> set rows"
  shows "Score r = (if Status r = ''Done'' then 1 else 0)"
proof (cases "processed entry")
  case False
  with assms show ?thesis
    by (auto simp: process_entry_def processed_def Let_def)
next
  case True
  with assms(1) obtain launched_str apf arows where
    l: "author_loop e names_dict (entry_get entry ''Repo URL'') (entry_get entry ''Assignment'')
          (entry_get entry ''Type'') launched_str (entry_target_files e entry)
          (entry_pr_list e entry) (''N/A'', ''N/A'') apf = Inr arows" and
    rows: "rows = arows @ non_attended names_dict (set (map fst apf))
             (entry_get entry ''Repo URL'') (entry_get entry ''Assignment'')
             (entry_get entry ''Type'') launched_str (entry_target_files e entry)"
    unfolding process_entry_def processed_def entry_target_files_def entry_pr_list_def Let_def
    by (auto split: sum.splits if_splits)
  from author_loop_rows [OF l] have "\<forall>x\<in>set arows. Score x = (if Status x = ''Done'' then 1 else 0)"
    by (auto simp: list_all2_conv_all_nth in_set_conv_nth)
  moreover have "\<forall>x\<in>set (non_attended names_dict (set (map fst apf))
             (entry_get entry ''Repo URL'') (entry_get entry ''Assignment'')
             (entry_get entry ''Type'') launched_str (entry_target_files e entry)).
           Score x = (if Status x = ''Done'' then 1 else 0)"
    using non_attended_rows by fastforce
  ultimately show ?thesis
    using assms(2) rows by auto
qed

lemma entries_loop_scores:
  "entries_loop e names_dict entries = Inr rows \<Longrightarrow> r \<in> set rows \<Longrightarrow>
   Score r = (if Status r = ''Done'' then 1 else 0)"
proof (induction entries arbitrary: rows)
  case Nil
  then show ?case by simp
next
  case (Cons entry entries)
  from Cons.prems(1) obtain r1 r2 where
    "process_entry e names_dict entry = Inr r1" "entries_loop e names_dict entries = Inr r2"
    "rows = r1 @ r2"
    by (auto split: sum.splits)
  with Cons.prems(2) Cons.IH process_entry_scores show ?case
    by (metis Un_iff set_append)
qed

text \<open>
  C2.  \<open>determine_status\<close> returns \<open>'Done'\<close> when the lowercased target set is a subset
  of the lowercased changed-file set and \<open>'Not Done'\<close> otherwise; the row of an author has
  the status of the author's files against the target files; and in every row sent to
  the sheet the score is 1 when the status is \<open>'Done'\<close> and 0 otherwise.
\<close>

theorem determine_status_subset_score:
  "determine_status changed target =
     (if lower ` set target \<subseteq> lower ` set changed then ''Done'' else ''Not Done'')
   \<and> (author_step e names_dict repo_url assignment entry_type launched_str target pr_list st
         (pr_author, changed) = Inr (r, st') \<longrightarrow>
        Status r = determine_status changed target \<and>
        Score r = (if Status r = ''Done'' then 1 else 0))
   \<and> (prepare_and_send_data e names_file data = Inr (Some rows) \<longrightarrow>
        (\<forall>x\<in>set rows. Score x = (if Status x = ''Done'' then 1 else 0)))"
proof -
  have a: "author_step e names_dict repo_url assignment entry_type launched_str target pr_list
             st (pr_author, changed) = Inr (r, st') \<Longrightarrow>
           Status r = determine_status changed target \<and>
           Score r = (if Status r = ''Done'' then 1 else 0)"
    using author_step_row [of e names_dict repo_url assignment entry_type launched_str target
        pr_list st "(pr_author, changed)" r st']
    by simp
  have "entries_loop e (load_names_from_file names_file) data = Inr rows"
    if "prepare_and_send_data e names_file data = Inr (Some rows)"
    using that unfolding prepare_and_send_data_def
    by (cases "entries_loop e (load_names_from_file names_file) data")
      (auto split: if_splits)
  then have b: "prepare_and_send_data e names_file data = Inr (Some rows) \<Longrightarrow>
                \<forall>x\<in>set rows. Score x = (if Status x = ''Done'' then 1 else 0)"
    using entries_loop_scores by blast
  show ?thesis
    using a b determine_status_sets [of changed target] by blast
qed

theorem determine_status_subset_score_witness:
  "prepare_and_send_data demo_env demo_names_file [demo_entry ''Main.java'']
     = Inr (Some demo_rows)
   \<and> map (\<lambda>x. Score x = (if Status x = ''Done'' then 1 else 0)) demo_rows
       = [True, True, True]
   \<and> map Status demo_rows = [''Done'', ''Not Done'', ''Not Done'']
   \<and> map Score demo_rows = [1, 0, 0]"
proof -
  have "\<forall>x\<in>set demo_rows. Score x = (if Status x = ''Done'' then 1 else 0)"
    using determine_status_subset_score
      [where e = demo_env and names_file = demo_names_file
         and data = "[demo_entry ''Main.java'']" and rows = demo_rows]
      demo_run
    by blast
  then have "map (\<lambda>x. Score x = (if Status x = ''Done'' then 1 else 0)) demo_rows
               = [True, True, True]"
    by (simp add: demo_rows_def)
  moreover have "map Status demo_rows = [''Done'', ''Not Done'', ''Not Done'']"
    and "map Score demo_rows = [1, 0, 0]"
    by (simp_all add: demo_rows_def)
  ultimately show ?thesis
    using demo_run by blast
qed

subsection \<open>Skipped entries\<close>

lemma entries_loop_append:
  "entries_loop e names_dict (xs @ ys) =
     (case entries_loop e names_dict xs of
        Inl err \<Rightarrow> Inl err
      | Inr r1 \<Rightarrow> (case entries_loop e names_dict ys of
                     Inl err \<Rightarrow> Inl err | Inr r2 \<Rightarrow> Inr (r1 @ r2)))"
  by (induction xs) (auto split: sum.splits)

lemma process_entry_skipped:
  "\<not> processed entry \<Longrightarrow> process_entry e names_dict entry = Inr []"
  by (auto simp: process_entry_def processed_def Let_def)

text \<open>
  C10.  An entry of the feed whose Repo URL or Assignment is empty appends no row, and the
  run goes on as if the entry were not in the feed.
\<close>

theorem skipped_entry_no_rows:
  assumes "entry_get entry ''Repo URL'' = [] \<or> entry_get entry ''Assignment'' = []"
  shows "process_entry e names_dict entry = Inr []
       \<and> entries_loop e names_dict (before @ entry # after)
           = entries_loop e names_dict (before @ after)
       \<and> prepare_and_send_data e names_file (before @ entry # after)
           = map_sum id Some
               (entries_loop e (load_names_from_file names_file) (before @ after))"
proof -
  from assms have n: "\<not> processed entry"
    by (auto simp: processed_def)
  have s: "process_entry e nd entry = Inr []" for nd
    using n by (rule process_entry_skipped)
  have l: "entries_loop e nd (before @ entry # after) = entries_loop e nd (before @ after)" for nd
    by (simp add: entries_loop_append s split: sum.splits)
  show ?thesis
    by (simp add: s l prepare_and_send_data_def)
qed

theorem skipped_entry_no_rows_witness:
  "entry_get [(''Repo URL'', []), (''Assignment'', ''HW0'')] ''Repo URL'' = []
   \<and> process_entry demo_env (load_names_from_file demo_names_file)
         [(''Repo URL'', []), (''Assignment'', ''HW0'')] = Inr []
   \<and> prepare_and_send_data demo_env demo_names_file
         [[(''Repo URL'', []), (''Assignment'', ''HW0'')], demo_entry ''Main.java'']
       = Inr (Some demo_rows)"
proof -
  have h: "entry_get [(''Repo URL'', []), (''Assignment'', ''HW0'')] ''Repo URL'' = []"
    by (simp add: entry_get_def)
  then have "entry_get [(''Repo URL'', []), (''Assignment'', ''HW0'')] ''Repo URL'' = [] \<or>
             entry_get [(''Repo URL'', []), (''Assignment'', ''HW0'')] ''Assignment'' = []"
    by (rule disjI1)
  from skipped_entry_no_rows
    [OF this, of demo_env "load_names_from_file demo_names_file" "[]"
       "[demo_entry ''Main.java'']" demo_names_file]
  have p: "process_entry demo_env (load_names_from_file demo_names_file)
             [(''Repo URL'', []), (''Assignment'', ''HW0'')] = Inr []"
    and q: "prepare_and_send_data demo_env demo_names_file
              [[(''Repo URL'', []), (''Assignment'', ''HW0'')], demo_entry ''Main.java'']
            = map_sum id Some
                (entries_loop demo_env (load_names_from_file demo_names_file)
                   [demo_entry ''Main.java''])"
    by simp_all
  have "map_sum id Some
          (entries_loop demo_env (load_names_from_file demo_names_file)
             [demo_entry ''Main.java''])
        = Inr (Some demo_rows)"
    using demo_run by (simp add: prepare_and_send_data_def)
  with h p q show ?thesis
    by simp
qed

subsection \<open>One row for each roster handle\<close>











subsection \<open>The empty Target File column\<close>

lemma split_empty: "split sep [] = [[]]"
  by simp

lemma target_files_of_empty_field:
  "target_files_of e repo_dir (split CHR '','' []) = []"
  by (simp add: target_files_of_def strip_def lower_def)

text \<open>
  C3.  For an entry whose Target File column is empty the target list is empty, although
  the working copy holds \<open>Main.java\<close> and \<open>app.js\<close>, which the column \<open>N/A\<close> selects;
  with the empty target list both authors of the small run are Done.
\<close>

theorem empty_target_file_column:
  "entry_target_files demo_env (demo_entry []) = []
   \<and> entry_target_files demo_env (demo_entry ''N/A'') = [''Main.java'', ''app.js'']
   \<and> entry_target_files demo_env (demo_entry ''NA'') = [''Main.java'', ''app.js'']
   \<and> entry_target_files demo_env (demo_entry ''Main.java, ,app.js'') = [''Main.java'', ''app.js'']
   \<and> map_sum id (map_option (map (\<lambda>r. (Name r, Target_Files r, Status r, Score r))))
         (prepare_and_send_data demo_env demo_names_file [demo_entry []])
       = Inr (Some [(''Alice'', [], ''Done'', 1), (''Bob'', [], ''Done'', 1),
                    (''Carol'', [], ''Not Done'', 0)])"
  by code_simp

subsection \<open>An author whose commit-time queries all fail\<close>

lemma latest_loop_all_fail:
  "None \<notin> set prs \<Longrightarrow>
   (\<And>p. Some p \<in> set prs \<Longrightarrow> lower (author p) = pr_author \<Longrightarrow>
      get_latest_commit_time e repo_url (pr_id p) = Inr None) \<Longrightarrow>
   latest_loop e repo_url pr_author prs cur = Inr cur"
proof (induction prs)
  case Nil
  then show ?case by simp
next
  case (Cons x prs)
  then show ?case
    by (cases x) auto
qed

text \<open>
  When every query of an author fails, the time and the date of the author before the
  constraints are the values the two variables hold when the author's turn begins.
\<close>

lemma author_times_all_fail:
  "None \<notin> set prs \<Longrightarrow>
   (\<And>p. Some p \<in> set prs \<Longrightarrow> lower (author p) = pr_author \<Longrightarrow>
      get_latest_commit_time e repo_url (pr_id p) = Inr None) \<Longrightarrow>
   author_times e repo_url prs st pr_author = Inr st"
  by (simp add: author_times_def latest_loop_all_fail)

text \<open>
  C4.  In the small run the only query for Bob's pull request fails, and the query for
  Alice's, whose turn is before Bob's, gives 18:00:00 on 2024-01-09: the row of Bob has the
  time \<open>18:00:00\<close> and the date \<open>2024-01-09\<close>, not \<open>N/A\<close>.
\<close>

theorem failed_queries_keep_previous_time:
  "get_latest_commit_time demo_env ''https://github.com/org/hw1'' 2 = Inr None
   \<and> latest_loop demo_env ''https://github.com/org/hw1'' ''bob''
         demo_pr_list None = Inr None
   \<and> map_sum id (map_option (map (\<lambda>r. (Name r, Time r, Date r))))
         (prepare_and_send_data demo_env demo_names_file [demo_entry ''Main.java''])
       = Inr (Some [(''Alice'', ''18:00:00'', Some ''2024-01-09''),
                    (''Bob'', ''18:00:00'', Some ''2024-01-09''),
                    (''Carol'', ''N/A'', None)])"
proof -
  have "get_latest_commit_time demo_env ''https://github.com/org/hw1'' 2 = Inr None"
    by (simp add: demo_env_def)
  moreover have "latest_loop demo_env ''https://github.com/org/hw1'' ''bob''
         demo_pr_list None = Inr None"
    by code_simp
  moreover have "map_sum id (map_option (map (\<lambda>r. (Name r, Time r, Date r))))
         (prepare_and_send_data demo_env demo_names_file [demo_entry ''Main.java''])
       = Inr (Some [(''Alice'', ''18:00:00'', Some ''2024-01-09''),
                    (''Bob'', ''18:00:00'', Some ''2024-01-09''),
                    (''Carol'', ''N/A'', None)])"
    by (simp add: demo_run demo_rows_def)
  ultimately show ?thesis
    by blast
qed

subsection \<open>The latest commit time of an author\<close>




text \<open>
  A pull request whose details could not be read stops the run: the first loop over the
  pull requests raises \<open>KeyError\<close>.
\<close>

lemma accumulate_missing_details:
  "None \<in> set prs \<Longrightarrow> accumulate A prs acc = Inl KeyError"
proof (induction A prs acc rule: accumulate.induct)
  case (3 A p prs acc)
  then show ?case
    by (auto simp: Let_def split: option.splits)
qed simp_all

subsection \<open>When the run reaches the sheet\<close>















end
